theory Spec2Isabelle
  imports Main "HOL-Library.AList" "HOL-Library.Multiset" "HOL-Library.Sublist"
begin

section \<open>td: a local, file-backed task tracker\<close>

text \<open>
  The command layer \<^verbatim>\<open>td/cli.py\<close> is embedded function by function. It imports
  \<^verbatim>\<open>VALID_STATES\<close>, \<^verbatim>\<open>Task\<close> and \<^verbatim>\<open>slugify\<close> from \<^verbatim>\<open>td.models\<close> and the store operations
  from \<^verbatim>\<open>td.store\<close>; those two modules are modelled from the specification and every such
  definition says so.

  Strings are byte strings (\<^typ>\<open>string\<close>); a letter or digit is an ASCII letter or digit.
  Timestamps are natural numbers handed in by the caller (the value of
  \<^verbatim>\<open>datetime.now()\<close> at the call).
\<close>

subsection \<open>Characters\<close>

definition is_lower :: "char \<Rightarrow> bool" where
  "is_lower c = (97 \<le> (of_char c :: nat) \<and> (of_char c :: nat) \<le> 122)"

definition is_upper :: "char \<Rightarrow> bool" where
  "is_upper c = (65 \<le> (of_char c :: nat) \<and> (of_char c :: nat) \<le> 90)"

definition is_digit :: "char \<Rightarrow> bool" where
  "is_digit c = (48 \<le> (of_char c :: nat) \<and> (of_char c :: nat) \<le> 57)"

definition is_alnum :: "char \<Rightarrow> bool" where
  "is_alnum c = (is_lower c \<or> is_upper c \<or> is_digit c)"

definition hyphen :: char where
  "hyphen = CHR ''-''"

definition lower_char :: "char \<Rightarrow> char" where
  "lower_char c = (if is_upper c then char_of ((of_char c :: nat) + 32) else c)"




subsection \<open>td.models\<close>

text \<open>
  Modelled from the spec: \<^verbatim>\<open>slugify\<close> of \<^verbatim>\<open>td.models\<close> is not among the sources. The
  specification: it lowercases, replaces runs of non-alphanumeric characters with a single
  hyphen, and strips leading and trailing hyphens.
\<close>

fun replace_runs :: "bool \<Rightarrow> string \<Rightarrow> string" where
  "replace_runs in_run [] = []"
| "replace_runs in_run (c # cs) =
     (if is_alnum c then c # replace_runs False cs
      else if in_run then replace_runs True cs
      else hyphen # replace_runs True cs)"

definition strip_hyphens :: "string \<Rightarrow> string" where
  "strip_hyphens s = rev (dropWhile (\<lambda>c. c = hyphen) (rev (dropWhile (\<lambda>c. c = hyphen) s)))"

definition slugify :: "string \<Rightarrow> string" where
  "slugify title = strip_hyphens (replace_runs False (map lower_char title))"

text \<open>
  Modelled from the spec: \<^verbatim>\<open>VALID_STATES\<close> of \<^verbatim>\<open>td.models\<close> is not among the sources. The
  specification gives the fixed ordered enumeration focus, active, later, done.
\<close>

definition VALID_STATES :: "string list" where
  "VALID_STATES = [''focus'', ''active'', ''later'', ''done'']"

text \<open>
  Modelled from the spec: the class \<^verbatim>\<open>Task\<close> of \<^verbatim>\<open>td.models\<close> is not among the sources.
  Its attributes are those of the specification's data model; \<^verbatim>\<open>cli.py\<close> reads and writes
  each of them. The attribute \<^verbatim>\<open>id\<close> is the field \<open>task_id\<close>, the attribute
  \<^verbatim>\<open>notes\<close> the field \<open>task_notes\<close>.
\<close>

type_synonym timestamp = nat

record task =
  task_id :: string
  title :: string
  state :: string
  parent :: "string option"
  task_notes :: "string option"
  created :: timestamp
  updated :: timestamp

subsection \<open>td.store\<close>

text \<open>
  The world a command runs in: whether a \<^verbatim>\<open>.td/\<close> marker is found from the working
  directory upward, the absolute path of the project root as the list of its components,
  the records of \<^verbatim>\<open>.td/tasks/\<close> (one file \<^verbatim>\<open><key>.yaml\<close> per entry, in directory order),
  the other files and directories of the file system by absolute path, and the
  confirmation prompts shown on the terminal so far. A record holds a parsed task. The
  root, its ancestors, \<^verbatim>\<open>.td\<close> and \<^verbatim>\<open>.td/tasks\<close> are directories, and \<^verbatim>\<open>.td/tasks\<close> holds the
  record files and nothing else.
\<close>

datatype node = File | Dir

record world =
  initialized :: bool
  root :: "string list"
  records :: "(string \<times> task) list"
  others :: "(string list \<times> node) list"
  prompts :: "string list"

datatype error =
    NotInitialized
  | NotFound string
  | ClickException string
  | Abort
  | RecursionError

text \<open>
  Modelled from the spec: \<^verbatim>\<open>find_td_root\<close> of \<^verbatim>\<open>td.store\<close> is not among the sources. It
  fails with a "not initialized" condition when no ancestor directory holds the marker.
  The directory it returns is the \<open>root\<close> of the world.
\<close>

definition find_td_root :: "world \<Rightarrow> error + unit" where
  "find_td_root w = (if initialized w then Inr () else Inl NotInitialized)"

text \<open>
  Whether the store has a record under an id: the "record with that id exists" of the
  specification's contracts for load, delete and \<^verbatim>\<open>resolve_unique_id\<close>.
\<close>

definition record_exists :: "world \<Rightarrow> string \<Rightarrow> bool" where
  "record_exists w k = (k \<in> set (map fst (records w)))"

text \<open>
  Modelled from the spec: \<^verbatim>\<open>load_task\<close> of \<^verbatim>\<open>td.store\<close> is not among the sources. It
  reads exactly one record and fails with a "not found" condition if no record with that
  id exists.
\<close>

definition load_task :: "world \<Rightarrow> string \<Rightarrow> error + task" where
  "load_task w k = (case map_of (records w) k of None \<Rightarrow> Inl (NotFound k) | Some t \<Rightarrow> Inr t)"

text \<open>
  Modelled from the spec: \<^verbatim>\<open>save_task\<close> of \<^verbatim>\<open>td.store\<close> is not among the sources. It
  writes the full record to the record keyed by the task's id, overwriting any prior
  content and creating the record if absent.
\<close>

definition save_task :: "world \<Rightarrow> task \<Rightarrow> world" where
  "save_task w t = w\<lparr>records := AList.update (task_id t) t (records w)\<rparr>"

text \<open>
  Modelled from the spec: \<^verbatim>\<open>delete_task\<close> of \<^verbatim>\<open>td.store\<close> is not among the sources. It
  removes the record for the id and fails with "not found" if absent.
\<close>

definition delete_task :: "world \<Rightarrow> string \<Rightarrow> (error + unit) \<times> world" where
  "delete_task w k =
     (if record_exists w k then (Inr (), w\<lparr>records := AList.delete k (records w)\<rparr>)
      else (Inl (NotFound k), w))"

text \<open>
  Modelled from the spec: \<^verbatim>\<open>load_all_tasks\<close> of \<^verbatim>\<open>td.store\<close> is not among the sources. It
  reads every record of the storage directory and returns them as a collection whose
  order the consumer imposes later.
\<close>

definition load_all_tasks :: "world \<Rightarrow> task list" where
  "load_all_tasks w = map snd (records w)"

text \<open>
  Modelled from the spec: \<^verbatim>\<open>resolve_unique_id\<close> of \<^verbatim>\<open>td.store\<close> is not among the sources.
  Given a candidate base slug it returns the base if no record with that id exists;
  otherwise it appends a numeric suffix (base-2, base-3, ...), incrementing until an unused
  id is found. The suffix is the decimal numeral of the counter.
\<close>

definition digit_char :: "nat \<Rightarrow> char" where
  "digit_char d = char_of (48 + d)"

fun str_nat :: "nat \<Rightarrow> string" where
  "str_nat n = (if n < 10 then [digit_char n] else str_nat (n div 10) @ [digit_char (n mod 10)])"

declare str_nat.simps [simp del]

definition suffixed :: "string \<Rightarrow> nat \<Rightarrow> string" where
  "suffixed base n = base @ [hyphen] @ str_nat n"

definition nat_of_digits :: "string \<Rightarrow> nat" where
  "nat_of_digits s = foldl (\<lambda>a c. 10 * a + ((of_char c :: nat) - 48)) 0 s"

lemma nat_of_digits_snoc: "nat_of_digits (s @ [c]) = 10 * nat_of_digits s + ((of_char c :: nat) - 48)"
  by (simp add: nat_of_digits_def)

lemma nat_of_digits_str_nat: "nat_of_digits (str_nat n) = n"
proof (induction n rule: str_nat.induct)
  case (1 n)
  show ?case
  proof (cases "n < 10")
    case True
    then show ?thesis
      by (subst str_nat.simps) (simp add: nat_of_digits_def digit_char_def)
  next
    case False
    have m: "(48 + n mod 10) mod 256 = 48 + n mod 10"
      by (rule mod_less) (simp add: less_le_trans [OF add_strict_left_mono [OF pos_mod_bound]])
    from False 1 have "nat_of_digits (str_nat (n div 10)) = n div 10"
      by simp
    with False m show ?thesis
      by (subst str_nat.simps) (simp add: nat_of_digits_snoc digit_char_def)
  qed
qed

lemma inj_str_nat: "inj str_nat"
  by (rule inj_on_inverseI [where g = nat_of_digits]) (rule nat_of_digits_str_nat)

lemma inj_suffixed: "inj (suffixed base)"
  by (rule injI) (simp add: suffixed_def inj_eq [OF inj_str_nat])

lemma finite_taken: "finite {k. suffixed base k \<in> S}" if "finite S"
  using finite_vimageI [OF that inj_suffixed, of base] by (simp add: vimage_def)

function resolve_from :: "world \<Rightarrow> string \<Rightarrow> nat \<Rightarrow> string" where
  "resolve_from w base n =
     (if record_exists w (suffixed base n) then resolve_from w base (Suc n)
      else suffixed base n)"
  by pat_completeness auto
termination
proof (relation "measure (\<lambda>(w, base, n). card {k. n \<le> k \<and> suffixed base k \<in> set (map fst (records w))})")
  show "wf (measure (\<lambda>(w, base, n). card {k. n \<le> k \<and> suffixed base k \<in> set (map fst (records w))}))"
    by simp
next
  fix w :: world and base :: string and n :: nat
  assume ex: "record_exists w (suffixed base n)"
  let ?S = "set (map fst (records w))"
  have fin: "finite {k. n \<le> k \<and> suffixed base k \<in> ?S}"
    by (rule finite_subset [OF _ finite_taken [of ?S base]]) auto
  have "n \<in> {k. n \<le> k \<and> suffixed base k \<in> ?S}"
    using ex by (simp add: record_exists_def)
  moreover have "n \<notin> {k. Suc n \<le> k \<and> suffixed base k \<in> ?S}"
    by simp
  moreover have "{k. Suc n \<le> k \<and> suffixed base k \<in> ?S} \<subseteq> {k. n \<le> k \<and> suffixed base k \<in> ?S}"
    by auto
  ultimately have "{k. Suc n \<le> k \<and> suffixed base k \<in> ?S} \<subset> {k. n \<le> k \<and> suffixed base k \<in> ?S}"
    by blast
  then have "card {k. Suc n \<le> k \<and> suffixed base k \<in> ?S} < card {k. n \<le> k \<and> suffixed base k \<in> ?S}"
    by (rule psubset_card_mono [OF fin])
  then show "((w, base, Suc n), (w, base, n))
      \<in> measure (\<lambda>(w, base, n). card {k. n \<le> k \<and> suffixed base k \<in> set (map fst (records w))})"
    by simp
qed

declare resolve_from.simps [simp del]

definition resolve_unique_id :: "world \<Rightarrow> string \<Rightarrow> string" where
  "resolve_unique_id w base = (if record_exists w base then resolve_from w base 2 else base)"

subsection \<open>td.cli\<close>

text \<open>
  A command takes the world and returns its outcome together with the world it leaves
  behind: an exception raised by the command is \<open>Inl\<close>, and the world beside it is the one
  at the moment of the raise. What a command echoes is kept only where a property is about
  it. \<open>truthy\<close> is Python's truth value of an optional string: \<^verbatim>\<open>None\<close> and \<^verbatim>\<open>""\<close> are
  false.
\<close>

type_synonym 'a outcome = "(error + 'a) \<times> world"

fun truthy :: "string option \<Rightarrow> bool" where
  "truthy None = False"
| "truthy (Some s) = (s \<noteq> [])"

definition quoted :: "string \<Rightarrow> string" where
  "quoted s = [CHR 0x27] @ s @ [CHR 0x27]"

text \<open>The two \<^verbatim>\<open>click.ClickException\<close>s of \<^verbatim>\<open>add\<close> and the one of \<^verbatim>\<open>tree\<close>.\<close>

definition AlreadyExists :: "string \<Rightarrow> error" where
  "AlreadyExists k = ClickException (''Task ID '' @ quoted k @ '' already exists.'')"

definition InvalidSlug :: error where
  "InvalidSlug = ClickException ''Title must produce a valid slug.''"

definition TaskNotFound :: "string \<Rightarrow> error" where
  "TaskNotFound k = ClickException (''Task '' @ quoted k @ '' not found.'')"

text \<open>
  The test \<^verbatim>\<open>(root / ".td" / "tasks" / f"{task_id}.yaml").exists()\<close> of \<^verbatim>\<open>add\<close> is a test of a
  path, not of a key. \<^verbatim>\<open>pathlib\<close> takes an absolute right operand as the whole path and
  otherwise appends it to the tasks directory; the operating system then resolves the
  components one by one, where \<^verbatim>\<open>.\<close> and an empty component stay, \<^verbatim>\<open>..\<close> goes to the
  parent, a name must exist in the directory reached, and a file may only come last.
  (POSIX paths on a case-sensitive file system, without symbolic links.) So
  \<^verbatim>\<open>./foo\<close>, \<^verbatim>\<open>../tasks/foo\<close> and the absolute path of the record all name the record
  \<^verbatim>\<open>foo\<close>. The path of a stored record exists in any case: \<^verbatim>\<open>save_task\<close> wrote it.
\<close>

fun split_path :: "string \<Rightarrow> string list" where
  "split_path [] = [[]]"
| "split_path (c # cs) =
     (if c = CHR ''/'' then [] # split_path cs
      else (case split_path cs of [] \<Rightarrow> [[c]] | x # xs \<Rightarrow> (c # x) # xs))"

definition record_file :: "string \<Rightarrow> string" where
  "record_file k = k @ ''.yaml''"

definition tasks_dir :: "world \<Rightarrow> string list" where
  "tasks_dir w = root w @ [''.td'', ''tasks'']"

definition node_at :: "world \<Rightarrow> string list \<Rightarrow> node option" where
  "node_at w p =
     (if prefix p (tasks_dir w) then Some Dir
      else if prefix (tasks_dir w) p then
        (case drop (length (tasks_dir w)) p of
           [n] \<Rightarrow> if n \<in> set (map (\<lambda>(k, t). record_file k) (records w)) then Some File else None
         | _ \<Rightarrow> None)
      else map_of (others w) p)"

fun walk :: "world \<Rightarrow> string list \<Rightarrow> string list \<Rightarrow> bool" where
  "walk w d [] = True"
| "walk w d (c # cs) =
     (if c = [] \<or> c = ''.'' then walk w d cs
      else if c = ''..'' then walk w (butlast d) cs
      else (case node_at w (d @ [c]) of
              None \<Rightarrow> False
            | Some Dir \<Rightarrow> walk w (d @ [c]) cs
            | Some File \<Rightarrow> cs = []))"

definition path_exists :: "world \<Rightarrow> string \<Rightarrow> bool" where
  "path_exists w s = walk w (if take 1 s = ''/'' then [] else tasks_dir w) (split_path s)"

definition task_file_exists :: "world \<Rightarrow> string \<Rightarrow> bool" where
  "task_file_exists w k = (record_exists w k \<or> path_exists w (record_file k))"

text \<open>Lines 47 to 55 of \<^verbatim>\<open>add\<close>: the id of the new task.\<close>

definition add_task_id :: "string \<Rightarrow> string option \<Rightarrow> world \<Rightarrow> error + string" where
  "add_task_id title_arg custom_id w =
     (let from_title =
            (let base = slugify title_arg in
             if base = [] then Inl InvalidSlug
             else Inr (resolve_unique_id w base))
      in case custom_id of
           None \<Rightarrow> from_title
         | Some k \<Rightarrow>
             if k = [] then from_title
             else if task_file_exists w k then Inl (AlreadyExists k)
             else Inr k)"

definition add :: "string \<Rightarrow> string option \<Rightarrow> string option \<Rightarrow> string option \<Rightarrow> timestamp
    \<Rightarrow> world \<Rightarrow> string outcome" where
  "add title_arg parent_arg state_arg custom_id now w =
     (case find_td_root w of
        Inl e \<Rightarrow> (Inl e, w)
      | Inr _ \<Rightarrow>
          (case add_task_id title_arg custom_id w of
             Inl e \<Rightarrow> (Inl e, w)
           | Inr k \<Rightarrow>
               (let st = (case state_arg of None \<Rightarrow> ''active'' | Some s \<Rightarrow> s);
                    t = \<lparr>task_id = k, title = title_arg, state = st, parent = parent_arg,
                         task_notes = None, created = now, updated = now\<rparr>
                in (Inr k, save_task w t))))"

definition set_state :: "string \<Rightarrow> string \<Rightarrow> timestamp \<Rightarrow> world \<Rightarrow> unit outcome" where
  "set_state k new_state now w =
     (case find_td_root w of
        Inl e \<Rightarrow> (Inl e, w)
      | Inr _ \<Rightarrow>
          (case load_task w k of
             Inl e \<Rightarrow> (Inl e, w)
           | Inr t \<Rightarrow> (Inr (), save_task w (t\<lparr>state := new_state, updated := now\<rparr>))))"

definition focus_cmd :: "string \<Rightarrow> timestamp \<Rightarrow> world \<Rightarrow> unit outcome" where
  "focus_cmd k = set_state k ''focus''"

definition active_cmd :: "string \<Rightarrow> timestamp \<Rightarrow> world \<Rightarrow> unit outcome" where
  "active_cmd k = set_state k ''active''"

definition later_cmd :: "string \<Rightarrow> timestamp \<Rightarrow> world \<Rightarrow> unit outcome" where
  "later_cmd k = set_state k ''later''"

definition done_cmd :: "string \<Rightarrow> timestamp \<Rightarrow> world \<Rightarrow> unit outcome" where
  "done_cmd k = set_state k ''done''"

text \<open>
  \<^verbatim>\<open>ls\<close>: the dictionary \<^verbatim>\<open>state_order\<close>, its lookup with the default 99, and the list the
  command goes on to print (as a table or as JSON). Python's \<^verbatim>\<open>list.sort\<close> is stable, as
  \<^const>\<open>sort_key\<close> is.
\<close>

definition state_order :: "string \<rightharpoonup> nat" where
  "state_order = map_of (zip VALID_STATES [0 ..< length VALID_STATES])"

definition state_order_get :: "string \<Rightarrow> nat" where
  "state_order_get s = (case state_order s of None \<Rightarrow> 99 | Some i \<Rightarrow> i)"

definition ls_cmd :: "string option \<Rightarrow> bool \<Rightarrow> world \<Rightarrow> error + task list" where
  "ls_cmd filter_state show_all w =
     (case find_td_root w of
        Inl e \<Rightarrow> Inl e
      | Inr _ \<Rightarrow>
          (let tasks = load_all_tasks w;
               tasks = (if truthy filter_state then filter (\<lambda>t. Some (state t) = filter_state) tasks
                        else if \<not> show_all then filter (\<lambda>t. state t \<noteq> ''done'') tasks
                        else tasks)
           in Inr (sort_key (\<lambda>t. state_order_get (state t)) tasks)))"

text \<open>
  \<^verbatim>\<open>tree\<close>. A printed line \<^verbatim>\<open>f"{prefix}{t.id} [{t.state}]"\<close> is kept as the pair of its
  indent and its task. \<^verbatim>\<open>print_tree\<close> recurses along the parent references, which nothing
  keeps acyclic, so the model carries the number of frames the interpreter still allows:
  at 0 the call raises \<^verbatim>\<open>RecursionError\<close>, and the lines echoed until then stay on the
  terminal. The flag beside the lines tells whether the call returned.
\<close>

type_synonym row = "nat \<times> task"

definition render_row :: "row \<Rightarrow> string" where
  "render_row r = replicate (2 * fst r) CHR '' '' @ task_id (snd r) @ '' ['' @ state (snd r) @ '']''"

definition children_of :: "task list \<Rightarrow> string option \<Rightarrow> task list" where
  "children_of tasks = foldl (\<lambda>m t. m(parent t := m (parent t) @ [t])) (\<lambda>_. []) tasks"

fun print_tree :: "nat \<Rightarrow> (string option \<Rightarrow> task list) \<Rightarrow> string option \<Rightarrow> nat \<Rightarrow> row list \<times> bool"
  and print_each :: "nat \<Rightarrow> (string option \<Rightarrow> task list) \<Rightarrow> task list \<Rightarrow> nat \<Rightarrow> row list \<times> bool"
where
  "print_tree 0 children parent_id indent = ([], False)"
| "print_tree (Suc frames) children parent_id indent =
     print_each frames children (children parent_id) indent"
| "print_each frames children [] indent = ([], True)"
| "print_each frames children (t # ts) indent =
     (case print_tree frames children (Some (task_id t)) (Suc indent) of
        (below, returned) \<Rightarrow>
          if returned then
            (case print_each frames children ts indent of
               (rest, returned') \<Rightarrow> ((indent, t) # below @ rest, returned'))
          else ((indent, t) # below, False))"

definition finish :: "bool \<Rightarrow> error + unit" where
  "finish returned = (if returned then Inr () else Inl RecursionError)"

definition tree :: "string option \<Rightarrow> nat \<Rightarrow> world \<Rightarrow> (error + unit) \<times> row list" where
  "tree id_arg frames w =
     (case find_td_root w of
        Inl e \<Rightarrow> (Inl e, [])
      | Inr _ \<Rightarrow>
          (let tasks = filter (\<lambda>t. state t \<noteq> ''done'') (load_all_tasks w);
               task_map = map_of (rev (map (\<lambda>t. (task_id t, t)) tasks));
               children = children_of tasks;
               whole = (case print_tree frames children None 0 of
                          (rows, returned) \<Rightarrow> (finish returned, rows))
           in case id_arg of
                None \<Rightarrow> whole
              | Some k \<Rightarrow>
                  if k = [] then whole
                  else
                    (case task_map k of
                       None \<Rightarrow> (Inl (TaskNotFound k), [])
                     | Some t \<Rightarrow>
                         (case print_tree frames children (Some k) 1 of
                            (rows, returned) \<Rightarrow> (finish returned, (0, t) # rows)))))"

text \<open>\<^verbatim>\<open>show\<close> prints the fields of the task it loads; the model returns that task.\<close>

definition show_cmd :: "string \<Rightarrow> world \<Rightarrow> error + task" where
  "show_cmd k w =
     (case find_td_root w of
        Inl e \<Rightarrow> Inl e
      | Inr _ \<Rightarrow> load_task w k)"

definition edit :: "string \<Rightarrow> string option \<Rightarrow> string option \<Rightarrow> string option \<Rightarrow> timestamp
    \<Rightarrow> world \<Rightarrow> unit outcome" where
  "edit k title_arg notes_arg parent_arg now w =
     (case find_td_root w of
        Inl e \<Rightarrow> (Inl e, w)
      | Inr _ \<Rightarrow>
          (case load_task w k of
             Inl e \<Rightarrow> (Inl e, w)
           | Inr t \<Rightarrow>
               (let t1 = (case title_arg of None \<Rightarrow> t | Some s \<Rightarrow> t\<lparr>title := s\<rparr>);
                    t2 = (case notes_arg of None \<Rightarrow> t1
                          | Some s \<Rightarrow> t1\<lparr>task_notes := (if s \<noteq> [] then Some s else None)\<rparr>);
                    t3 = (case parent_arg of None \<Rightarrow> t2
                          | Some s \<Rightarrow> t2\<lparr>parent := (if s \<noteq> [] then Some s else None)\<rparr>);
                    changed = (title_arg \<noteq> None \<or> notes_arg \<noteq> None \<or> parent_arg \<noteq> None)
                in if changed then (Inr (), save_task w (t3\<lparr>updated := now\<rparr>))
                   else (Inr (), w))))"

definition mv :: "string \<Rightarrow> string \<Rightarrow> timestamp \<Rightarrow> world \<Rightarrow> unit outcome" where
  "mv k parent_id now w =
     (case find_td_root w of
        Inl e \<Rightarrow> (Inl e, w)
      | Inr _ \<Rightarrow>
          (case load_task w k of
             Inl e \<Rightarrow> (Inl e, w)
           | Inr t \<Rightarrow> (Inr (), save_task w (t\<lparr>parent := Some parent_id, updated := now\<rparr>))))"

text \<open>
  \<^verbatim>\<open>rm\<close>. \<^verbatim>\<open>click.confirm(..., abort=True)\<close> shows the prompt and raises \<^verbatim>\<open>click.Abort\<close> when
  the user declines; \<open>answer\<close> is what the user replies if asked.
\<close>

definition confirm :: "string \<Rightarrow> bool \<Rightarrow> world \<Rightarrow> unit outcome" where
  "confirm msg answer w =
     (let w' = w\<lparr>prompts := prompts w @ [msg]\<rparr>
      in if answer then (Inr (), w') else (Inl Abort, w'))"

definition rm :: "string \<Rightarrow> bool \<Rightarrow> bool \<Rightarrow> world \<Rightarrow> unit outcome" where
  "rm k force answer w =
     (case find_td_root w of
        Inl e \<Rightarrow> (Inl e, w)
      | Inr _ \<Rightarrow>
          (case load_task w k of
             Inl e \<Rightarrow> (Inl e, w)
           | Inr _ \<Rightarrow>
               (if \<not> force then
                  (case confirm (''Delete task '' @ quoted k @ ''?'') answer w of
                     (Inl e, w') \<Rightarrow> (Inl e, w')
                   | (Inr _, w') \<Rightarrow> delete_task w' k)
                else delete_task w k)))"

subsection \<open>A small project\<close>

definition task1 :: task where
  "task1 = \<lparr>task_id = ''foo'', title = ''Foo'', state = ''active'', parent = None,
     task_notes = Some ''n'', created = 1, updated = 2\<rparr>"

definition project0 :: world where
  "project0 = \<lparr>initialized = True, root = [''home'', ''u'', ''proj''], records = [],
     others = [], prompts = []\<rparr>"

definition project1 :: world where
  "project1 = \<lparr>initialized = True, root = [''home'', ''u'', ''proj''],
     records = [(''foo'', task1)], others = [], prompts = []\<rparr>"

text \<open>Three tasks created in turn: A active (the default), B done, C focus.\<close>

definition project_abc :: world where
  "project_abc =
     snd (add ''C'' None (Some ''focus'') None 3
       (snd (add ''B'' None (Some ''done'') None 2
         (snd (add ''A'' None None None 1 project0)))))"

definition task_a :: task where
  "task_a = \<lparr>task_id = ''a'', title = ''A'', state = ''active'', parent = None,
     task_notes = None, created = 1, updated = 1\<rparr>"

definition task_b :: task where
  "task_b = \<lparr>task_id = ''b'', title = ''B'', state = ''done'', parent = None,
     task_notes = None, created = 2, updated = 2\<rparr>"

definition task_c :: task where
  "task_c = \<lparr>task_id = ''c'', title = ''C'', state = ''focus'', parent = None,
     task_notes = None, created = 3, updated = 3\<rparr>"

text \<open>\<open>project1\<close> after a second task titled "Foo": the records "foo" and "foo-2".\<close>

definition project_foo2 :: world where
  "project_foo2 = snd (add ''Foo'' None None None 3 project1)"

subsection \<open>Stored ids\<close>




text \<open>The commands that write, and the world each leaves behind.\<close>

datatype command =
    Add string "string option" "string option" "string option"
  | SetState string string
  | Edit string "string option" "string option" "string option"
  | Mv string string
  | Rm string bool bool

fun run :: "command \<Rightarrow> timestamp \<Rightarrow> world \<Rightarrow> world" where
  "run (Add title_arg parent_arg state_arg custom_id) now w =
     snd (add title_arg parent_arg state_arg custom_id now w)"
| "run (SetState k new_state) now w = snd (set_state k new_state now w)"
| "run (Edit k title_arg notes_arg parent_arg) now w = snd (edit k title_arg notes_arg parent_arg now w)"
| "run (Mv k parent_id) now w = snd (mv k parent_id now w)"
| "run (Rm k force answer) now w = snd (rm k force answer w)"



section \<open>Properties\<close>

subsection \<open>The store\<close>

lemma load_save_same: "load_task (save_task w t) (task_id t) = Inr t"
  by (simp add: load_task_def save_task_def update_conv')

lemma load_save_other: "k \<noteq> task_id t \<Longrightarrow> load_task (save_task w t) k = load_task w k"
  by (simp add: load_task_def save_task_def update_conv')

lemma load_task_Inr_iff: "load_task w k = Inr t \<longleftrightarrow> map_of (records w) k = Some t"
  by (simp add: load_task_def split: option.splits)

lemma load_task_absent: "\<not> record_exists w k \<Longrightarrow> load_task w k = Inl (NotFound k)"
  by (simp add: load_task_def record_exists_def map_of_eq_None_iff split: option.splits)

lemma load_task_present: "record_exists w k \<Longrightarrow> \<exists>t. load_task w k = Inr t"
  by (cases "map_of (records w) k") (simp_all add: load_task_def record_exists_def map_of_eq_None_iff)

subsection \<open>The path test of add\<close>







lemma task_file_spellings:
  "task_file_exists project1 ''foo'' \<and> task_file_exists project1 ''./foo''
   \<and> task_file_exists project1 ''../tasks/foo''
   \<and> task_file_exists project1 ''/home/u/proj/.td/tasks/foo''
   \<and> \<not> task_file_exists project1 ''bar'' \<and> \<not> task_file_exists project1 ''./bar''
   \<and> \<not> task_file_exists project1 ''foo.yaml/../foo''
   \<and> \<not> task_file_exists project1 ''My Task''"
  unfolding project1_def task1_def by code_simp

lemma add_other_spelling:
  "fst (add ''T'' None None (Some ''./foo'') 5 project1) = Inl (AlreadyExists ''./foo'')
   \<and> records (snd (add ''T'' None None (Some ''./foo'') 5 project1)) = records project1"
  using task_file_spellings
  by (simp add: add_def add_task_id_def find_td_root_def project1_def)


subsection \<open>Creating a task under an id that is taken\<close>

text \<open>
  C2. In an initialised project, \<^verbatim>\<open>add\<close> with a custom id that a stored record already has
  fails with the "already exists" error, and the world it leaves is the world it found:
  no record is written and the record under that id is the one that was there. (An empty
  \<^verbatim>\<open>--id\<close> is no custom id to \<^verbatim>\<open>add\<close>: Python takes the empty string as false.)
\<close>

theorem add_existing_custom_id:
  assumes "initialized w" and "k \<noteq> []" and "record_exists w k"
  shows "add title_arg parent_arg state_arg (Some k) now w = (Inl (AlreadyExists k), w)"
  using assms by (simp add: add_def add_task_id_def find_td_root_def task_file_exists_def)

theorem add_existing_custom_id_witness:
  "initialized project1 \<and> ''foo'' \<noteq> [] \<and> record_exists project1 ''foo''
   \<and> add ''Another'' None None (Some ''foo'') 7 project1 = (Inl (AlreadyExists ''foo''), project1)"
  using add_existing_custom_id [of project1 "''foo''" "''Another''" None None 7]
  by (simp add: project1_def record_exists_def)

subsection \<open>State transitions\<close>

text \<open>
  C5. Each of the commands \<^verbatim>\<open>focus\<close>, \<^verbatim>\<open>active\<close>, \<^verbatim>\<open>later\<close> and \<^verbatim>\<open>done\<close>, run on a stored
  task, succeeds and persists the task with its state set to the command's target and its
  \<open>updated\<close> timestamp set to the current time; id, title, parent, notes and the \<open>created\<close>
  timestamp are as before, and so is every other record.
\<close>

theorem set_state_frame:
  assumes "initialized w" and "load_task w k = Inr t"
    and "(cmd, target) \<in> set [(focus_cmd, ''focus''), (active_cmd, ''active''),
                               (later_cmd, ''later''), (done_cmd, ''done'')]"
    and "w' = snd (cmd k now w)" and "t' = t\<lparr>state := target, updated := now\<rparr>"
  shows "fst (cmd k now w) = Inr ()
         \<and> load_task w' (task_id t) = Inr t'
         \<and> state t' = target \<and> updated t' = now
         \<and> task_id t' = task_id t \<and> title t' = title t \<and> parent t' = parent t
         \<and> task_notes t' = task_notes t \<and> created t' = created t
         \<and> (\<forall>k'. k' \<noteq> task_id t \<longrightarrow> load_task w' k' = load_task w k')"
proof -
  from assms(3) have "cmd k now w = set_state k target now w"
    by (auto simp: focus_cmd_def active_cmd_def later_cmd_def done_cmd_def)
  with assms(1,2,5) have run: "cmd k now w = (Inr (), save_task w t')"
    by (simp add: set_state_def find_td_root_def)
  have "load_task (save_task w t') (task_id t) = Inr t'"
    using load_save_same [of w t'] assms(5) by simp
  moreover have "\<forall>k'. k' \<noteq> task_id t \<longrightarrow> load_task (save_task w t') k' = load_task w k'"
    using load_save_other [of _ t' w] assms(5) by simp
  ultimately show ?thesis
    using run assms(4,5) by simp
qed

theorem set_state_frame_witness:
  "fst (done_cmd ''foo'' 9 project1) = Inr ()
   \<and> load_task (snd (done_cmd ''foo'' 9 project1)) ''foo'' = Inr (task1\<lparr>state := ''done'', updated := 9\<rparr>)
   \<and> load_task project1 ''foo'' = Inr task1"
proof -
  have "initialized project1" and "load_task project1 ''foo'' = Inr task1"
    by (simp_all add: project1_def load_task_def)
  from set_state_frame [OF this, of done_cmd "''done''" _ 9, OF _ refl refl] this(2)
  show ?thesis by (simp add: task1_def)
qed

subsection \<open>Deleting\<close>

text \<open>
  C6. \<^verbatim>\<open>rm\<close> loads the task before anything else: for an id without a record it fails with
  \<open>NotFound\<close>, having shown no prompt and changed nothing; for a stored id whose deletion
  the user declines it aborts after the prompt with the records untouched; only a forced
  or confirmed \<^verbatim>\<open>rm\<close> of a stored id removes the record.
\<close>

theorem rm_checks_first:
  "initialized w \<longrightarrow>
     (\<not> record_exists w k \<longrightarrow> rm k force answer w = (Inl (NotFound k), w))
   \<and> (record_exists w k \<and> \<not> force \<and> \<not> answer \<longrightarrow>
        fst (rm k force answer w) = Inl Abort
        \<and> records (snd (rm k force answer w)) = records w
        \<and> prompts (snd (rm k force answer w)) = prompts w @ [''Delete task '' @ quoted k @ ''?''])
   \<and> (record_exists w k \<and> (force \<or> answer) \<longrightarrow>
        fst (rm k force answer w) = Inr ()
        \<and> records (snd (rm k force answer w)) = AList.delete k (records w))"
proof (intro impI conjI)
  assume i: "initialized w"
  { assume "\<not> record_exists w k"
    with i show "rm k force answer w = (Inl (NotFound k), w)"
      by (simp add: rm_def find_td_root_def load_task_absent) }
  { assume a: "record_exists w k \<and> \<not> force \<and> \<not> answer"
    then obtain t where t: "load_task w k = Inr t"
      using load_task_present by blast
    with i a show "fst (rm k force answer w) = Inl Abort"
        "records (snd (rm k force answer w)) = records w"
        "prompts (snd (rm k force answer w)) = prompts w @ [''Delete task '' @ quoted k @ ''?'']"
      by (simp_all add: rm_def find_td_root_def confirm_def) }
  { assume a: "record_exists w k \<and> (force \<or> answer)"
    then obtain t where t: "load_task w k = Inr t"
      using load_task_present by blast
    with i a show "fst (rm k force answer w) = Inr ()"
        "records (snd (rm k force answer w)) = AList.delete k (records w)"
      by (cases force; simp add: rm_def find_td_root_def confirm_def delete_task_def
          record_exists_def Let_def)+ }
qed

theorem rm_checks_first_witness:
  "rm ''bar'' False True project1 = (Inl (NotFound ''bar''), project1)
   \<and> fst (rm ''foo'' False False project1) = Inl Abort
   \<and> records (snd (rm ''foo'' False False project1)) = records project1
   \<and> fst (rm ''foo'' True False project1) = Inr ()
   \<and> records (snd (rm ''foo'' True False project1)) = []"
proof -
  have i: "initialized project1" and a: "\<not> record_exists project1 ''bar''"
    and p: "record_exists project1 ''foo''"
    by (simp_all add: project1_def record_exists_def)
  have d: "AList.delete ''foo'' (records project1) = []"
    by (simp add: project1_def AList.delete_eq)
  from rm_checks_first [of project1 "''bar''" False True]
       rm_checks_first [of project1 "''foo''" False False]
       rm_checks_first [of project1 "''foo''" True False] i a p d
  show ?thesis by simp
qed

subsection \<open>Listing\<close>

lemma project_abc_records:
  "project_abc = \<lparr>initialized = True, root = [''home'', ''u'', ''proj''],
     records = [(''a'', task_a), (''b'', task_b), (''c'', task_c)], others = [], prompts = []\<rparr>"
  unfolding project_abc_def project0_def task_a_def task_b_def task_c_def by code_simp

lemma state_order_get_valid:
  "state_order_get ''focus'' = 0" "state_order_get ''active'' = 1"
  "state_order_get ''later'' = 2" "state_order_get ''done'' = 3"
  by (simp_all add: state_order_get_def state_order_def VALID_STATES_def upt_rec)

lemma ls_cmd_sorted:
  "ls_cmd filter_state show_all w = Inr res \<Longrightarrow> sorted (map (\<lambda>t. state_order_get (state t)) res)"
  by (auto simp: ls_cmd_def Let_def split: sum.splits if_splits)

text \<open>
  C3. \<^verbatim>\<open>ls\<close> lists the stored tasks it selects (those of the filtered state; else, without
  \<^verbatim>\<open>--all\<close>, those not done; else all), each as often as it is stored, and in that list
  every focus task comes before every active task, every active task before every later
  task and every later task before every done task (and so for any two states in that
  order).
\<close>

theorem ls_order:
  assumes "initialized w"
  shows "\<exists>res. ls_cmd filter_state show_all w = Inr res
     \<and> mset res =
         (if truthy filter_state
          then filter_mset (\<lambda>t. Some (state t) = filter_state) (mset (load_all_tasks w))
          else if show_all then mset (load_all_tasks w)
          else filter_mset (\<lambda>t. state t \<noteq> ''done'') (mset (load_all_tasks w)))
     \<and> (\<forall>i j. i < length res \<and> j < length res
            \<and> (state (res ! i), state (res ! j)) \<in> set
                 [(''focus'', ''active''), (''focus'', ''later''), (''focus'', ''done''),
                  (''active'', ''later''), (''active'', ''done''), (''later'', ''done'')]
          \<longrightarrow> i < j)"
proof -
  from assms obtain res where res: "ls_cmd filter_state show_all w = Inr res"
    by (simp add: ls_cmd_def find_td_root_def Let_def)
  with assms have "mset res =
         (if truthy filter_state
          then filter_mset (\<lambda>t. Some (state t) = filter_state) (mset (load_all_tasks w))
          else if show_all then mset (load_all_tasks w)
          else filter_mset (\<lambda>t. state t \<noteq> ''done'') (mset (load_all_tasks w)))"
    by (auto simp: ls_cmd_def find_td_root_def Let_def)
  moreover have "i < j"
    if "i < length res \<and> j < length res
        \<and> (state (res ! i), state (res ! j)) \<in> set
             [(''focus'', ''active''), (''focus'', ''later''), (''focus'', ''done''),
              (''active'', ''later''), (''active'', ''done''), (''later'', ''done'')]" for i j
  proof (rule ccontr)
    assume "\<not> i < j"
    then have "j \<le> i" by simp
    from ls_cmd_sorted [OF res] this that
    have "map (\<lambda>t. state_order_get (state t)) res ! j \<le> map (\<lambda>t. state_order_get (state t)) res ! i"
      by (simp only: sorted_iff_nth_mono length_map)
    with that have "state_order_get (state (res ! j)) \<le> state_order_get (state (res ! i))"
      by simp
    moreover from that have "state_order_get (state (res ! i)) < state_order_get (state (res ! j))"
      by (auto simp: state_order_get_valid)
    ultimately show False by simp
  qed
  ultimately show ?thesis using res by blast
qed

lemma ls_all_abc: "ls_cmd None True project_abc = Inr [task_c, task_a, task_b]"
  unfolding project_abc_records task_a_def task_b_def task_c_def by code_simp

theorem ls_order_witness:
  "initialized project_abc \<and> load_all_tasks project_abc = [task_a, task_b, task_c]
   \<and> ls_cmd None True project_abc = Inr [task_c, task_a, task_b]
   \<and> mset [task_c, task_a, task_b] = mset (load_all_tasks project_abc)
   \<and> state task_c = ''focus'' \<and> state task_a = ''active'' \<and> state task_b = ''done''"
proof -
  have i: "initialized project_abc" and l: "load_all_tasks project_abc = [task_a, task_b, task_c]"
    by (simp_all add: project_abc_records load_all_tasks_def)
  from ls_order [OF i, of None True] ls_all_abc
  have "mset [task_c, task_a, task_b] = mset (load_all_tasks project_abc)"
    by simp
  with i l ls_all_abc show ?thesis
    by (simp add: task_a_def task_b_def task_c_def)
qed

text \<open>
  C4. Without a state filter and without \<^verbatim>\<open>--all\<close>, \<^verbatim>\<open>ls\<close> lists exactly the stored tasks
  whose state is not done, each as often as it is stored. After creating A (active),
  B (done) and C (focus) that is A and C.
\<close>

theorem ls_default_hides_done:
  "initialized w \<Longrightarrow>
     \<exists>res. ls_cmd None False w = Inr res
       \<and> mset res = filter_mset (\<lambda>t. state t \<noteq> ''done'') (mset (load_all_tasks w))"
  by (simp add: ls_cmd_def find_td_root_def)

theorem ls_default_hides_done_witness:
  "initialized project_abc \<and> load_all_tasks project_abc = [task_a, task_b, task_c]
   \<and> (\<exists>res. ls_cmd None False project_abc = Inr res \<and> mset res = {#task_a, task_c#})"
proof -
  have i: "initialized project_abc" and l: "load_all_tasks project_abc = [task_a, task_b, task_c]"
    by (simp_all add: project_abc_records load_all_tasks_def)
  have "filter_mset (\<lambda>t. state t \<noteq> ''done'') (mset [task_a, task_b, task_c]) = {#task_a, task_c#}"
    by (simp add: task_a_def task_b_def task_c_def)
  with ls_default_hides_done [OF i] i l show ?thesis by simp
qed

subsection \<open>The tree\<close>

lemma children_foldl:
  "foldl (\<lambda>m t. m(parent t := m (parent t) @ [t])) m tasks p = m p @ filter (\<lambda>t. parent t = p) tasks"
  by (induction tasks arbitrary: m) auto

lemma children_of_filter: "children_of tasks p = filter (\<lambda>t. parent t = p) tasks"
  by (simp add: children_of_def children_foldl)

lemma print_tree_rows:
  "(\<forall>p. set (children p) \<subseteq> S) \<Longrightarrow> snd ` set (fst (print_tree frames children parent_id indent)) \<subseteq> S"
  "(\<forall>p. set (children p) \<subseteq> S) \<Longrightarrow> set ts \<subseteq> S
     \<Longrightarrow> snd ` set (fst (print_each frames children ts indent)) \<subseteq> S"
proof (induction frames children parent_id indent and frames children ts indent
    rule: print_tree_print_each.induct)
  case (1 children parent_id indent)
  show ?case by simp
next
  case (2 frames children parent_id indent)
  then show ?case by simp
next
  case (3 frames children indent)
  show ?case by simp
next
  case (4 frames children t ts indent)
  obtain below returned where b: "print_tree frames children (Some (task_id t)) (Suc indent) = (below, returned)"
    by (cases "print_tree frames children (Some (task_id t)) (Suc indent)")
  obtain rest returned' where r: "print_each frames children ts indent = (rest, returned')"
    by (cases "print_each frames children ts indent")
  from 4(1) [OF 4(3)] b have below: "snd ` set below \<subseteq> S" by simp
  show ?case
  proof (cases returned)
    case True
    from 4(2) [OF b [symmetric] True 4(3)] 4(4) r have "snd ` set rest \<subseteq> S" by simp
    with below 4(4) b r True show ?thesis by auto
  next
    case False
    with below 4(4) b show ?thesis by simp
  qed
qed

lemma tree_rows_listed:
  "snd ` set (snd (tree id_arg frames w)) \<subseteq> set (filter (\<lambda>t. state t \<noteq> ''done'') (load_all_tasks w))"
proof -
  let ?tasks = "filter (\<lambda>t. state t \<noteq> ''done'') (load_all_tasks w)"
  have ch: "\<forall>p. set (children_of ?tasks p) \<subseteq> set ?tasks"
    by (auto simp: children_of_filter)
  have rows: "\<forall>r \<in> set (fst (print_tree frames (children_of ?tasks) p i)). snd r \<in> set ?tasks" for p i
    using print_tree_rows(1) [OF ch, of frames p i] by blast
  have root: "t \<in> set ?tasks" if "map_of (rev (map (\<lambda>t. (task_id t, t)) ?tasks)) k = Some t" for k t
    using map_of_SomeD [OF that] by auto
  show ?thesis
  proof (cases "initialized w")
    case False
    then show ?thesis by (simp add: tree_def find_td_root_def)
  next
    case True
    show ?thesis
    proof (cases "truthy id_arg")
      case False
      then have "id_arg = None \<or> id_arg = Some []"
        by (cases id_arg) auto
      with True rows [of None 0] show ?thesis
        by (fastforce simp: tree_def find_td_root_def Let_def split: prod.splits)
    next
      case t: True
      then obtain k where k: "id_arg = Some k" "k \<noteq> []"
        by (cases id_arg) auto
      show ?thesis
      proof (cases "map_of (rev (map (\<lambda>t. (task_id t, t)) ?tasks)) k")
        case None
        with True k show ?thesis
          by (simp add: tree_def find_td_root_def Let_def)
      next
        case (Some t)
        from root [OF Some] have "t \<in> set ?tasks" .
        with True k Some rows [of "Some k" 1] show ?thesis
          by (fastforce simp: tree_def find_td_root_def Let_def split: prod.splits)
      qed
    qed
  qed
qed

text \<open>
  C10. \<^verbatim>\<open>tree\<close> drops the done tasks before it looks the id up. So for a stored task whose
  state is done (ids being unique among the stored tasks), \<^verbatim>\<open>tree\<close> with that task's id
  fails with the "not found" error although the task exists; and no line that \<^verbatim>\<open>tree\<close>
  prints, with or without an id and whether or not the recursion returns, is the line of
  a done task.
\<close>

theorem tree_hides_done:
  "(initialized w \<and> distinct (map task_id (load_all_tasks w)) \<and> t \<in> set (load_all_tasks w)
      \<and> state t = ''done'' \<and> task_id t \<noteq> []
    \<longrightarrow> tree (Some (task_id t)) frames w = (Inl (TaskNotFound (task_id t)), []))
   \<and> (\<forall>r \<in> set (snd (tree id_arg frames' w')). state (snd r) \<noteq> ''done'')"
proof (intro conjI impI ballI)
  assume a: "initialized w \<and> distinct (map task_id (load_all_tasks w)) \<and> t \<in> set (load_all_tasks w)
      \<and> state t = ''done'' \<and> task_id t \<noteq> []"
  let ?tasks = "filter (\<lambda>t. state t \<noteq> ''done'') (load_all_tasks w)"
  have "task_id t \<notin> task_id ` set ?tasks"
  proof
    assume "task_id t \<in> task_id ` set ?tasks"
    then obtain u where u: "u \<in> set (load_all_tasks w)" "state u \<noteq> ''done''" "task_id u = task_id t"
      by auto
    from a have "inj_on task_id (set (load_all_tasks w))"
      by (simp add: distinct_map)
    with u a have "u = t" by (auto dest: inj_onD)
    with u a show False by simp
  qed
  then have "map_of (rev (map (\<lambda>t. (task_id t, t)) ?tasks)) (task_id t) = None"
    by (simp add: map_of_eq_None_iff image_image)
  with a show "tree (Some (task_id t)) frames w = (Inl (TaskNotFound (task_id t)), [])"
    by (simp add: tree_def find_td_root_def Let_def)
next
  fix r assume "r \<in> set (snd (tree id_arg frames' w'))"
  with tree_rows_listed [of id_arg frames' w'] show "state (snd r) \<noteq> ''done''"
    by auto
qed

theorem tree_hides_done_witness:
  "initialized project_abc \<and> distinct (map task_id (load_all_tasks project_abc))
   \<and> task_b \<in> set (load_all_tasks project_abc) \<and> state task_b = ''done'' \<and> task_id task_b = ''b''
   \<and> tree (Some ''b'') 1000 project_abc = (Inl (TaskNotFound ''b''), [])
   \<and> tree None 1000 project_abc = (Inr (), [(0, task_a), (0, task_c)])"
proof -
  have h: "initialized project_abc" "distinct (map task_id (load_all_tasks project_abc))"
      "task_b \<in> set (load_all_tasks project_abc)" "state task_b = ''done''" "task_id task_b = ''b''"
    by (simp_all add: project_abc_records load_all_tasks_def task_a_def task_b_def task_c_def)
  have t: "tree None 1000 project_abc = (Inr (), [(0, task_a), (0, task_c)])"
    unfolding project_abc_records task_a_def task_b_def task_c_def by code_simp
  from tree_hides_done [of project_abc task_b 1000 None 1000 project_abc] h t
  show ?thesis by simp
qed

subsection \<open>Allocating an id\<close>

lemma record_exists_save: "record_exists (save_task w t) k \<longleftrightarrow> k = task_id t \<or> record_exists w k"
  by (auto simp: record_exists_def save_task_def update_keys)

lemma str_nat_2_3: "str_nat 2 = ''2''" "str_nat 3 = ''3''"
  by code_simp+

lemma suffixed_2: "suffixed base 2 = base @ ''-2''"
  by (simp add: suffixed_def hyphen_def str_nat_2_3)

lemma suffixed_3: "suffixed base 3 = base @ ''-3''"
  by (simp add: suffixed_def hyphen_def str_nat_2_3)

lemma resolve_from_first_unused:
  "\<exists>m\<ge>n. resolve_from w base n = suffixed base m \<and> \<not> record_exists w (suffixed base m)
     \<and> (\<forall>k. n \<le> k \<and> k < m \<longrightarrow> record_exists w (suffixed base k))"
proof (induction w base n rule: resolve_from.induct)
  case (1 w base n)
  show ?case
  proof (cases "record_exists w (suffixed base n)")
    case False
    then have "resolve_from w base n = suffixed base n"
      by (simp add: resolve_from.simps [of w base n])
    with False show ?thesis
      by (intro exI [of _ n]) auto
  next
    case True
    from 1 [OF True] obtain m where m: "Suc n \<le> m" "resolve_from w base (Suc n) = suffixed base m"
        "\<not> record_exists w (suffixed base m)"
        "\<forall>k. Suc n \<le> k \<and> k < m \<longrightarrow> record_exists w (suffixed base k)"
      by blast
    from True m(2) have "resolve_from w base n = suffixed base m"
      by (simp add: resolve_from.simps [of w base n])
    moreover have "\<forall>k. n \<le> k \<and> k < m \<longrightarrow> record_exists w (suffixed base k)"
    proof (intro allI impI)
      fix k assume k: "n \<le> k \<and> k < m"
      show "record_exists w (suffixed base k)"
      proof (cases "k = n")
        case True
        with \<open>record_exists w (suffixed base n)\<close> show ?thesis by simp
      next
        case False
        with k m(4) show ?thesis by simp
      qed
    qed
    ultimately show ?thesis
      using m(1,3) by (intro exI [of _ m]) simp
  qed
qed

lemma resolve_unique_id_unused: "\<not> record_exists w (resolve_unique_id w base)"
proof (cases "record_exists w base")
  case True
  with resolve_from_first_unused [of 2 w base] show ?thesis
    by (auto simp: resolve_unique_id_def)
next
  case False
  then show ?thesis by (simp add: resolve_unique_id_def)
qed

text \<open>
  C9. \<^verbatim>\<open>resolve_unique_id\<close> returns the base if no record has that id, and otherwise the
  first unused id among base-2, base-3, ... (all earlier ones being taken). Hence calling
  it again with the same base, after a task with the first result as id has been saved,
  yields a different id; on an empty project the two results are "foo" and "foo-2".
\<close>

theorem resolve_unique_id_first_unused:
  "(\<not> record_exists w base \<longrightarrow> resolve_unique_id w base = base)
   \<and> (record_exists w base \<longrightarrow>
        (\<exists>n\<ge>2. resolve_unique_id w base = suffixed base n
           \<and> \<not> record_exists w (suffixed base n)
           \<and> (\<forall>m. 2 \<le> m \<and> m < n \<longrightarrow> record_exists w (suffixed base m))))
   \<and> suffixed base 2 = base @ ''-2'' \<and> suffixed base 3 = base @ ''-3''
   \<and> (task_id t = resolve_unique_id w base \<longrightarrow>
        resolve_unique_id (save_task w t) base \<noteq> resolve_unique_id w base)"
proof (intro conjI impI)
  show "resolve_unique_id w base = base" if "\<not> record_exists w base"
    using that by (simp add: resolve_unique_id_def)
  show "\<exists>n\<ge>2. resolve_unique_id w base = suffixed base n
           \<and> \<not> record_exists w (suffixed base n)
           \<and> (\<forall>m. 2 \<le> m \<and> m < n \<longrightarrow> record_exists w (suffixed base m))"
    if "record_exists w base"
    using that resolve_from_first_unused [of 2 w base] by (simp add: resolve_unique_id_def)
  show "suffixed base 2 = base @ ''-2''" by (rule suffixed_2)
  show "suffixed base 3 = base @ ''-3''" by (rule suffixed_3)
  show "resolve_unique_id (save_task w t) base \<noteq> resolve_unique_id w base"
    if "task_id t = resolve_unique_id w base"
  proof
    assume "resolve_unique_id (save_task w t) base = resolve_unique_id w base"
    with resolve_unique_id_unused [of "save_task w t" base]
    have "\<not> record_exists (save_task w t) (task_id t)"
      using that by simp
    then show False by (simp add: record_exists_save)
  qed
qed

theorem resolve_unique_id_first_unused_witness:
  "\<not> record_exists project0 ''foo'' \<and> resolve_unique_id project0 ''foo'' = ''foo''
   \<and> task_id task1 = ''foo''
   \<and> record_exists (save_task project0 task1) ''foo''
   \<and> resolve_unique_id (save_task project0 task1) ''foo'' = ''foo-2''"
proof -
  have a: "\<not> record_exists project0 ''foo''" and t: "task_id task1 = ''foo''"
    and b: "record_exists (save_task project0 task1) ''foo''"
    by (simp_all add: project0_def task1_def record_exists_def save_task_def)
  have c: "\<not> record_exists (save_task project0 task1) ''foo-2''"
    by (simp add: project0_def task1_def record_exists_def save_task_def)
  from resolve_unique_id_first_unused [of project0 "''foo''" task1] a
  have r1: "resolve_unique_id project0 ''foo'' = ''foo''" by simp
  from resolve_unique_id_first_unused [of "save_task project0 task1" "''foo''" task1] b
  obtain n where n: "2 \<le> n" "resolve_unique_id (save_task project0 task1) ''foo'' = suffixed ''foo'' n"
    "\<forall>m. 2 \<le> m \<and> m < n \<longrightarrow> record_exists (save_task project0 task1) (suffixed ''foo'' m)"
    by auto
  have "n = 2"
  proof (rule ccontr)
    assume "n \<noteq> 2"
    with n(1) have "2 \<le> (2::nat) \<and> 2 < n" by simp
    with n(3) have "record_exists (save_task project0 task1) (suffixed ''foo'' 2)" by blast
    with c show False by (simp add: suffixed_2)
  qed
  with n(2) have "resolve_unique_id (save_task project0 task1) ''foo'' = ''foo-2''"
    by (simp add: suffixed_2)
  with a t b r1 show ?thesis by simp
qed

subsection \<open>Slugs\<close>





lemma lower_char_not_upper: "\<not> is_upper (lower_char c)"
  by (simp add: lower_char_def is_upper_def)



















subsection \<open>Stored ids\<close>






























subsection \<open>Resolving the id a user types\<close>

lemma project_foo2_keys: "map fst (records project_foo2) = [''foo'', ''foo-2'']"
  unfolding project_foo2_def project1_def task1_def by code_simp

text \<open>
  C7 as stated fails: no command matches by prefix. With the single record "foo",
  \<^verbatim>\<open>td focus fo\<close> and \<^verbatim>\<open>td show fo\<close> fail with \<open>NotFound\<close>; with the records "foo" and
  "foo-2" the ambiguous "fo" gets the same \<open>NotFound\<close>, which names the typed text and no
  candidate.
\<close>

theorem prefix_not_resolved_counterexample:
  "prefix ''fo'' ''foo'' \<and> map fst (records project1) = [''foo'']
   \<and> focus_cmd ''fo'' 9 project1 = (Inl (NotFound ''fo''), project1)
   \<and> show_cmd ''fo'' project1 = Inl (NotFound ''fo'')
   \<and> prefix ''fo'' ''foo-2'' \<and> map fst (records project_foo2) = [''foo'', ''foo-2'']
   \<and> focus_cmd ''fo'' 9 project_foo2 = (Inl (NotFound ''fo''), project_foo2)"
proof -
  have "\<not> record_exists project1 ''fo''" and "\<not> record_exists project_foo2 ''fo''"
    by (simp_all add: record_exists_def project_foo2_keys) (simp add: project1_def)
  then have "load_task project1 ''fo'' = Inl (NotFound ''fo'')"
    and "load_task project_foo2 ''fo'' = Inl (NotFound ''fo'')"
    by (simp_all add: load_task_absent)
  moreover have "initialized project1" and "initialized project_foo2"
    by (simp_all add: project_foo2_def project1_def add_def find_td_root_def save_task_def
        Let_def split: sum.splits)
  moreover have "map fst (records project1) = [''foo'']"
    by (simp add: project1_def)
  ultimately show ?thesis
    by (simp add: focus_cmd_def set_state_def show_cmd_def find_td_root_def project_foo2_keys)
qed

text \<open>
  C7, as the code has it. The state transitions, \<^verbatim>\<open>show\<close>, \<^verbatim>\<open>edit\<close>, \<^verbatim>\<open>mv\<close> and \<^verbatim>\<open>rm\<close> look
  the typed id up by exact match: without a record under exactly that id each fails with
  \<open>NotFound\<close> of the typed id and changes nothing, whatever stored ids it is a prefix of;
  with such a record each works on that record and no other.
\<close>

theorem exact_lookup:
  assumes "initialized w"
  shows "(\<not> record_exists w k \<longrightarrow>
            set_state k s now w = (Inl (NotFound k), w)
          \<and> show_cmd k w = Inl (NotFound k)
          \<and> edit k title_arg notes_arg parent_arg now w = (Inl (NotFound k), w)
          \<and> mv k p now w = (Inl (NotFound k), w)
          \<and> rm k force answer w = (Inl (NotFound k), w))
       \<and> (map_of (records w) k = Some t \<longrightarrow>
            set_state k s now w = (Inr (), save_task w (t\<lparr>state := s, updated := now\<rparr>))
          \<and> show_cmd k w = Inr t
          \<and> mv k p now w = (Inr (), save_task w (t\<lparr>parent := Some p, updated := now\<rparr>))
          \<and> edit k (Some title_arg') None None now w
              = (Inr (), save_task w (t\<lparr>title := title_arg', updated := now\<rparr>))
          \<and> rm k True answer w = (Inr (), w\<lparr>records := AList.delete k (records w)\<rparr>))"
proof (intro conjI impI)
  assume "\<not> record_exists w k"
  then have l: "load_task w k = Inl (NotFound k)" by (rule load_task_absent)
  with assms show "set_state k s now w = (Inl (NotFound k), w)"
      "show_cmd k w = Inl (NotFound k)"
      "edit k title_arg notes_arg parent_arg now w = (Inl (NotFound k), w)"
      "mv k p now w = (Inl (NotFound k), w)"
      "rm k force answer w = (Inl (NotFound k), w)"
    by (simp_all add: set_state_def show_cmd_def edit_def mv_def rm_def find_td_root_def)
next
  assume m: "map_of (records w) k = Some t"
  then have l: "load_task w k = Inr t" by (simp add: load_task_def)
  from m have e: "record_exists w k"
    by (auto simp: record_exists_def dest: map_of_SomeD intro: rev_image_eqI)
  from assms l show "set_state k s now w = (Inr (), save_task w (t\<lparr>state := s, updated := now\<rparr>))"
      "show_cmd k w = Inr t"
      "mv k p now w = (Inr (), save_task w (t\<lparr>parent := Some p, updated := now\<rparr>))"
      "edit k (Some title_arg') None None now w
              = (Inr (), save_task w (t\<lparr>title := title_arg', updated := now\<rparr>))"
    by (simp_all add: set_state_def show_cmd_def edit_def mv_def find_td_root_def)
  from assms l e show "rm k True answer w = (Inr (), w\<lparr>records := AList.delete k (records w)\<rparr>)"
    by (simp add: rm_def find_td_root_def delete_task_def)
qed

theorem exact_lookup_witness:
  "initialized project1 \<and> \<not> record_exists project1 ''fo''
   \<and> set_state ''fo'' ''done'' 9 project1 = (Inl (NotFound ''fo''), project1)
   \<and> show_cmd ''fo'' project1 = Inl (NotFound ''fo'')
   \<and> map_of (records project1) ''foo'' = Some task1
   \<and> show_cmd ''foo'' project1 = Inr task1"
proof -
  have i: "initialized project1" and a: "\<not> record_exists project1 ''fo''"
    and m: "map_of (records project1) ''foo'' = Some task1"
    by (simp_all add: project1_def record_exists_def)
  from exact_lookup [OF i, where k = "''fo''" and s = "''done''" and now = 9 and t = task1]
       exact_lookup [OF i, where k = "''foo''" and s = "''done''" and now = 9 and t = task1] i a m
  show ?thesis by simp
qed

end
